theory Spec2Isabelle
  imports Complex_Main "HOL-Library.AList"
begin

section \<open>Values, errors and the outside world\<close>

text \<open>
  The client in \<^verbatim>\<open>spotify_client.py\<close> handles decoded JSON: the payload of the token
  endpoint, the catalog's track and artist documents, and the dictionaries it builds from
  them. Python's \<^verbatim>\<open>None\<close> is \<open>JNull\<close>; a \<^verbatim>\<open>dict\<close> is an association list
  read with \<open>map_of\<close> and written with \<open>AList.update\<close> (a key that is already there keeps
  its place and gets the new value, a new key is appended, as a Python dict does).
  Numbers and the clock are exact rationals: rounding of floats is not modelled.
\<close>

datatype json =
    JNull
  | JBool bool
  | JNum rat
  | JStr string
  | JList "json list"
  | JObj "(string \<times> json) list"

text \<open>Python's truth value of an object: what \<^verbatim>\<open>if x\<close>, \<^verbatim>\<open>not x\<close>, \<^verbatim>\<open>x and y\<close>
  and \<^verbatim>\<open>x or y\<close> test.\<close>

fun truthy :: "json \<Rightarrow> bool" where
  "truthy JNull = False"
| "truthy (JBool b) = b"
| "truthy (JNum n) = (n \<noteq> 0)"
| "truthy (JStr s) = (s \<noteq> [])"
| "truthy (JList xs) = (xs \<noteq> [])"
| "truthy (JObj kvs) = (kvs \<noteq> [])"

text \<open>
  The exceptions the code can meet. \<^verbatim>\<open>SpotifyAuthError\<close> is the one class the module
  declares; it is raised with two messages, kept apart here by \<open>auth_failure\<close>: the
  credentials are not configured, or the token endpoint answered with a status other than
  200 (the status and the body text are part of the message). \<open>HTTPError\<close> is what
  \<^verbatim>\<open>Response.raise_for_status\<close> raises, \<open>RequestException\<close> stands for a transport
  failure of \<^verbatim>\<open>requests.post\<close> or \<^verbatim>\<open>requests.get\<close> (connection error, timeout),
  \<open>JSONDecodeError\<close> is raised by \<^verbatim>\<open>Response.json\<close> on a body that is not JSON, and
  \<open>AttributeError\<close>, \<open>TypeError\<close> and \<open>KeyError\<close> are Python's own.
\<close>

datatype auth_failure =
    NotConfigured
  | TokenStatus int string

datatype error =
    SpotifyAuthError auth_failure
  | HTTPError int
  | RequestException
  | JSONDecodeError
  | AttributeError
  | TypeError
  | KeyError

text \<open>Every one of these classes derives from \<^verbatim>\<open>Exception\<close>, which is what the handler
  \<^verbatim>\<open>except Exception\<close> of the batch operations tests. Interrupts of the interpreter that
  are not an \<^verbatim>\<open>Exception\<close> (\<^verbatim>\<open>KeyboardInterrupt\<close>, \<^verbatim>\<open>SystemExit\<close>) do not come
  from the code and are not modelled.\<close>

fun is_Exception :: "error \<Rightarrow> bool" where
  "is_Exception (SpotifyAuthError m) = True"
| "is_Exception (HTTPError c) = True"
| "is_Exception RequestException = True"
| "is_Exception JSONDecodeError = True"
| "is_Exception AttributeError = True"
| "is_Exception TypeError = True"
| "is_Exception KeyError = True"

text \<open>
  An HTTP response as the code reads it: \<^verbatim>\<open>resp.status_code\<close>, \<^verbatim>\<open>resp.text\<close> and
  \<^verbatim>\<open>resp.json()\<close>, where \<open>None\<close> is a body that does not decode.
\<close>

record response =
  status_code :: int
  resp_text :: string
  json_body :: "json option"

text \<open>
  The two requests the client sends. A token request carries the string
  \<^verbatim>\<open>identifier:secret\<close> of its Basic authorization header (the base64 encoding of it is
  not modelled), a catalog request its URL and the value interpolated into the header
  \<^verbatim>\<open>Bearer {token}\<close>.
\<close>

datatype request =
    HttpPost string string
  | HttpGet string json

text \<open>
  The world outside the module: the two configuration constants read from the process
  environment when the module is loaded, the clock and the network. The program is
  sequential, so the outside world is a function of how many times the program has
  consulted it so far (the \<open>tick\<close> of the state below): \<open>time_time env k\<close> is what
  \<^verbatim>\<open>time.time()\<close> returns when it is the \<open>k\<close>-th interaction, and
  \<open>network env k req\<close> is the answer to the request \<open>req\<close> sent as the \<open>k\<close>-th
  interaction, \<open>None\<close> when the transport raises instead of answering.
\<close>

record env =
  SPOTIFY_CLIENT_ID :: "string option"
  SPOTIFY_CLIENT_SECRET :: "string option"
  time_time :: "nat \<Rightarrow> rat"
  network :: "nat \<Rightarrow> request \<Rightarrow> response option"

text \<open>
  The module's mutable globals \<^verbatim>\<open>_ACCESS_TOKEN\<close> and
  \<^verbatim>\<open>_ACCESS_TOKEN_EXPIRES_AT\<close>, with two observation fields: the number of
  interactions with the outside world so far and the requests sent so far, oldest first.
\<close>

record state =
  ACCESS_TOKEN :: json
  ACCESS_TOKEN_EXPIRES_AT :: rat
  tick :: nat
  sent :: "request list"

definition initial_state :: state where
  "initial_state = \<lparr>ACCESS_TOKEN = JNull, ACCESS_TOKEN_EXPIRES_AT = 0, tick = 0, sent = []\<rparr>"

definition TOKEN_URL :: string where
  "TOKEN_URL = ''https://accounts.spotify.com/api/token''"

definition BASE_API_URL :: string where
  "BASE_API_URL = ''https://api.spotify.com/v1''"

section \<open>Python and library operations the code calls\<close>

text \<open>\<^verbatim>\<open>x.get(k, d)\<close>: only a dict has the method.\<close>

fun dict_get :: "json \<Rightarrow> string \<Rightarrow> json \<Rightarrow> error + json" where
  "dict_get (JObj kvs) k d = Inr (case map_of kvs k of None \<Rightarrow> d | Some v \<Rightarrow> v)"
| "dict_get x k d = Inl AttributeError"

text \<open>\<^verbatim>\<open>x[k]\<close> on a dict.\<close>

fun dict_item :: "json \<Rightarrow> string \<Rightarrow> error + json" where
  "dict_item (JObj kvs) k = (case map_of kvs k of None \<Rightarrow> Inl KeyError | Some v \<Rightarrow> Inr v)"
| "dict_item x k = Inl TypeError"

text \<open>The value of an object as an operand of \<^verbatim>\<open>now + expires_in - 30\<close>: numbers and
  booleans add to a float, everything else raises \<^verbatim>\<open>TypeError\<close>.\<close>

fun number_of :: "json \<Rightarrow> rat option" where
  "number_of (JNum n) = Some n"
| "number_of (JBool b) = Some (if b then 1 else 0)"
| "number_of x = None"

text \<open>What a \<^verbatim>\<open>for\<close> clause iterates over: the items of a list, the characters of a
  string, the keys of a dict; other objects are not iterable.\<close>

fun iterate :: "json \<Rightarrow> error + json list" where
  "iterate (JList xs) = Inr xs"
| "iterate (JStr s) = Inr (map (\<lambda>c. JStr [c]) s)"
| "iterate (JObj kvs) = Inr (map JStr (remdups (map fst kvs)))"
| "iterate x = Inl TypeError"

text \<open>\<^verbatim>\<open>Response.raise_for_status\<close> of the requests library raises for the client and
  server error classes, 400 to 599, and for no other status.\<close>

definition raise_for_status :: "response \<Rightarrow> error + unit" where
  "raise_for_status resp =
     (if 400 \<le> status_code resp \<and> status_code resp < 600
      then Inl (HTTPError (status_code resp)) else Inr ())"

text \<open>Sequencing of steps that may raise.\<close>

definition and_then :: "error + 'a \<Rightarrow> ('a \<Rightarrow> error + 'b) \<Rightarrow> error + 'b" where
  "and_then r f = (case r of Inl e \<Rightarrow> Inl e | Inr x \<Rightarrow> f x)"

section \<open>The credential cache\<close>

text \<open>\<^verbatim>\<open>_get_basic_auth_header\<close>: an identifier or secret that is \<^verbatim>\<open>None\<close> or empty
  raises; otherwise the header is built from \<^verbatim>\<open>identifier:secret\<close>.\<close>

definition configured :: "string option \<Rightarrow> bool" where
  "configured v = (case v of None \<Rightarrow> False | Some s \<Rightarrow> s \<noteq> [])"

definition get_basic_auth_header :: "env \<Rightarrow> error + string" where
  "get_basic_auth_header env =
     (if \<not> configured (SPOTIFY_CLIENT_ID env) \<or> \<not> configured (SPOTIFY_CLIENT_SECRET env)
      then Inl (SpotifyAuthError NotConfigured)
      else Inr (the (SPOTIFY_CLIENT_ID env) @ '':'' @ the (SPOTIFY_CLIENT_SECRET env)))"

text \<open>
  \<^verbatim>\<open>get_access_token\<close>. The clock is read first; a usable cached token is returned
  without anything else happening. Otherwise the header is built (which may raise before
  anything is sent), the token request is sent, and on status 200 the payload is decoded:
  the token global is assigned first, then the expiry from \<^verbatim>\<open>now + expires_in - 30\<close>,
  so a payload whose \<^verbatim>\<open>expires_in\<close> cannot be added leaves the new token with the old
  expiry. The result is \<^verbatim>\<open>_ACCESS_TOKEN or ""\<close>.
\<close>

definition get_access_token :: "env \<Rightarrow> state \<Rightarrow> (error + json) \<times> state" where
  "get_access_token env s0 =
     (let now = time_time env (tick s0);
          s = s0\<lparr>tick := Suc (tick s0)\<rparr>
      in if truthy (ACCESS_TOKEN s) \<and> now < ACCESS_TOKEN_EXPIRES_AT s
         then (Inr (ACCESS_TOKEN s), s)
         else
           (case get_basic_auth_header env of
              Inl e \<Rightarrow> (Inl e, s)
            | Inr basic \<Rightarrow>
                (let req = HttpPost TOKEN_URL basic;
                     s1 = s\<lparr>tick := Suc (tick s), sent := sent s @ [req]\<rparr>
                 in case network env (tick s) req of
                      None \<Rightarrow> (Inl RequestException, s1)
                    | Some resp \<Rightarrow>
                        if status_code resp \<noteq> 200
                        then (Inl (SpotifyAuthError (TokenStatus (status_code resp) (resp_text resp))), s1)
                        else
                          (case json_body resp of
                             None \<Rightarrow> (Inl JSONDecodeError, s1)
                           | Some payload \<Rightarrow>
                               (case dict_get payload ''access_token'' JNull of
                                  Inl e \<Rightarrow> (Inl e, s1)
                                | Inr tok \<Rightarrow>
                                    (let s2 = s1\<lparr>ACCESS_TOKEN := tok\<rparr>
                                     in case dict_get payload ''expires_in'' (JNum 3600) of
                                          Inl e \<Rightarrow> (Inl e, s2)
                                        | Inr expires_in \<Rightarrow>
                                            (case number_of expires_in of
                                               None \<Rightarrow> (Inl TypeError, s2)
                                             | Some n \<Rightarrow>
                                                 (Inr (if truthy tok then tok else JStr []),
                                                  s2\<lparr>ACCESS_TOKEN_EXPIRES_AT := now + n - 30\<rparr>))))))))"

text \<open>\<^verbatim>\<open>_auth_headers\<close>: the token that goes into the \<^verbatim>\<open>Bearer\<close> header.\<close>

definition auth_headers :: "env \<Rightarrow> state \<Rightarrow> (error + json) \<times> state" where
  "auth_headers env s = get_access_token env s"

section \<open>Single lookups\<close>

text \<open>The list comprehension over \<^verbatim>\<open>data.get("artists", [])\<close>.\<close>

fun artist_summaries :: "json list \<Rightarrow> error + json list" where
  "artist_summaries [] = Inr []"
| "artist_summaries (artist # rest) =
     and_then (dict_get artist ''id'' JNull) (\<lambda>i.
     and_then (dict_get artist ''name'' JNull) (\<lambda>n.
     and_then (artist_summaries rest) (\<lambda>r.
       Inr (JObj [(''id'', i), (''name'', n)] # r))))"

text \<open>The dictionary \<^verbatim>\<open>get_track_info\<close> builds from the decoded document, its entries
  evaluated in the order they are written.\<close>

definition track_record :: "json \<Rightarrow> error + json" where
  "track_record data =
     and_then (dict_get data ''id'' JNull) (\<lambda>v_id.
     and_then (dict_get data ''name'' JNull) (\<lambda>v_name.
     and_then (dict_get data ''duration_ms'' JNull) (\<lambda>v_duration.
     and_then (dict_get data ''explicit'' JNull) (\<lambda>v_explicit.
     and_then (dict_get data ''preview_url'' JNull) (\<lambda>v_preview.
     and_then (dict_get data ''album'' (JObj [])) (\<lambda>album1.
     and_then (dict_get album1 ''id'' JNull) (\<lambda>album_id.
     and_then (dict_get data ''album'' (JObj [])) (\<lambda>album2.
     and_then (dict_get album2 ''name'' JNull) (\<lambda>album_name.
     and_then (dict_get data ''artists'' (JList [])) (\<lambda>artists.
     and_then (iterate artists) (\<lambda>items.
     and_then (artist_summaries items) (\<lambda>summaries.
       Inr (JObj
         [(''id'', v_id),
          (''name'', v_name),
          (''duration_ms'', v_duration),
          (''explicit'', v_explicit),
          (''preview_url'', v_preview),
          (''album'', JObj [(''id'', album_id), (''name'', album_name)]),
          (''artists'', JList summaries)])))))))))))))"

text \<open>The dictionary \<^verbatim>\<open>get_artist_info\<close> builds.\<close>

definition artist_record :: "json \<Rightarrow> error + json" where
  "artist_record data =
     and_then (dict_get data ''id'' JNull) (\<lambda>v_id.
     and_then (dict_get data ''name'' JNull) (\<lambda>v_name.
     and_then (dict_get data ''genres'' (JList [])) (\<lambda>v_genres.
     and_then (dict_get data ''popularity'' JNull) (\<lambda>v_popularity.
     and_then (dict_get data ''followers'' (JObj [])) (\<lambda>followers.
     and_then (dict_get followers ''total'' JNull) (\<lambda>v_total.
       Inr (JObj
         [(''id'', v_id),
          (''name'', v_name),
          (''genres'', v_genres),
          (''popularity'', v_popularity),
          (''followers'', v_total)])))))))"

text \<open>
  \<^verbatim>\<open>get_track_info\<close> and \<^verbatim>\<open>get_artist_info\<close>: the URL, the headers (which may
  raise before anything is sent), the request, then the status: 404 gives the empty
  dict, \<^verbatim>\<open>raise_for_status\<close> may raise, and the decoded body is projected.
\<close>

definition get_track_info :: "env \<Rightarrow> string \<Rightarrow> state \<Rightarrow> (error + json) \<times> state" where
  "get_track_info env spotify_track_id s0 =
     (let url = BASE_API_URL @ ''/tracks/'' @ spotify_track_id
      in case auth_headers env s0 of
           (Inl e, s) \<Rightarrow> (Inl e, s)
         | (Inr token, s) \<Rightarrow>
             (let req = HttpGet url token;
                  s1 = s\<lparr>tick := Suc (tick s), sent := sent s @ [req]\<rparr>
              in case network env (tick s) req of
                   None \<Rightarrow> (Inl RequestException, s1)
                 | Some resp \<Rightarrow>
                     if status_code resp = 404 then (Inr (JObj []), s1)
                     else
                       (case raise_for_status resp of
                          Inl e \<Rightarrow> (Inl e, s1)
                        | Inr u \<Rightarrow>
                            (case json_body resp of
                               None \<Rightarrow> (Inl JSONDecodeError, s1)
                             | Some data \<Rightarrow> (track_record data, s1)))))"

definition get_artist_info :: "env \<Rightarrow> string \<Rightarrow> state \<Rightarrow> (error + json) \<times> state" where
  "get_artist_info env spotify_artist_id s0 =
     (let url = BASE_API_URL @ ''/artists/'' @ spotify_artist_id
      in case auth_headers env s0 of
           (Inl e, s) \<Rightarrow> (Inl e, s)
         | (Inr token, s) \<Rightarrow>
             (let req = HttpGet url token;
                  s1 = s\<lparr>tick := Suc (tick s), sent := sent s @ [req]\<rparr>
              in case network env (tick s) req of
                   None \<Rightarrow> (Inl RequestException, s1)
                 | Some resp \<Rightarrow>
                     if status_code resp = 404 then (Inr (JObj []), s1)
                     else
                       (case raise_for_status resp of
                          Inl e \<Rightarrow> (Inl e, s1)
                        | Inr u \<Rightarrow>
                            (case json_body resp of
                               None \<Rightarrow> (Inl JSONDecodeError, s1)
                             | Some data \<Rightarrow> (artist_record data, s1)))))"

section \<open>Batch validation\<close>

text \<open>
  The statements both \<^verbatim>\<open>try\<close> blocks run once the record is fetched: the test
  \<^verbatim>\<open>info and info.get("id") and info.get("name")\<close>, evaluated left to right and
  stopping at the first false operand, and the assignment of the \<^verbatim>\<open>{id, name}\<close>
  entry under the identifier.
\<close>

definition add_if_valid ::
  "string \<Rightarrow> json \<Rightarrow> (string \<times> json) list \<Rightarrow> error + (string \<times> json) list" where
  "add_if_valid ident info valid =
     (if \<not> truthy info then Inr valid
      else and_then (dict_get info ''id'' JNull) (\<lambda>g_id.
           if \<not> truthy g_id then Inr valid
           else and_then (dict_get info ''name'' JNull) (\<lambda>g_name.
                if \<not> truthy g_name then Inr valid
                else and_then (dict_item info ''id'') (\<lambda>v_id.
                     and_then (dict_item info ''name'') (\<lambda>v_name.
                       Inr (AList.update ident (JObj [(''id'', v_id), (''name'', v_name)]) valid))))))"

text \<open>
  \<^verbatim>\<open>validate_tracks_batch\<close>: the loop over the identifiers. The body of the
  \<^verbatim>\<open>try\<close> is the fetch followed by the test and the assignment; the handler
  \<^verbatim>\<open>except Exception: continue\<close> goes on with the next identifier and the dictionary
  as it was; an exception of another kind would leave the function.
\<close>

fun validate_tracks_loop ::
  "env \<Rightarrow> string list \<Rightarrow> (string \<times> json) list \<Rightarrow> state
   \<Rightarrow> (error + (string \<times> json) list) \<times> state" where
  "validate_tracks_loop env [] valid_tracks s = (Inr valid_tracks, s)"
| "validate_tracks_loop env (track_id # rest) valid_tracks s =
     (case get_track_info env track_id s of
        (r, s') \<Rightarrow>
          (case and_then r (\<lambda>track_info. add_if_valid track_id track_info valid_tracks) of
             Inr valid_tracks' \<Rightarrow> validate_tracks_loop env rest valid_tracks' s'
           | Inl e \<Rightarrow>
               if is_Exception e then validate_tracks_loop env rest valid_tracks s'
               else (Inl e, s')))"

definition validate_tracks_batch ::
  "env \<Rightarrow> string list \<Rightarrow> state \<Rightarrow> (error + (string \<times> json) list) \<times> state" where
  "validate_tracks_batch env track_ids s = validate_tracks_loop env track_ids [] s"

text \<open>\<^verbatim>\<open>validate_artists_batch\<close>, the same loop over \<^verbatim>\<open>get_artist_info\<close>.\<close>

fun validate_artists_loop ::
  "env \<Rightarrow> string list \<Rightarrow> (string \<times> json) list \<Rightarrow> state
   \<Rightarrow> (error + (string \<times> json) list) \<times> state" where
  "validate_artists_loop env [] valid_artists s = (Inr valid_artists, s)"
| "validate_artists_loop env (artist_id # rest) valid_artists s =
     (case get_artist_info env artist_id s of
        (r, s') \<Rightarrow>
          (case and_then r (\<lambda>artist_info. add_if_valid artist_id artist_info valid_artists) of
             Inr valid_artists' \<Rightarrow> validate_artists_loop env rest valid_artists' s'
           | Inl e \<Rightarrow>
               if is_Exception e then validate_artists_loop env rest valid_artists s'
               else (Inl e, s')))"

definition validate_artists_batch ::
  "env \<Rightarrow> string list \<Rightarrow> state \<Rightarrow> (error + (string \<times> json) list) \<times> state" where
  "validate_artists_batch env artist_ids s = validate_artists_loop env artist_ids [] s"

section \<open>Notions used to state the properties\<close>

text \<open>The test at the head of \<^verbatim>\<open>get_access_token\<close>: the cached token is served.\<close>

definition cache_hit :: "env \<Rightarrow> state \<Rightarrow> bool" where
  "cache_hit env s \<longleftrightarrow>
     truthy (ACCESS_TOKEN s) \<and> time_time env (tick s) < ACCESS_TOKEN_EXPIRES_AT s"



text \<open>
  What the catalog answers to a lookup started in state \<open>s\<close>, when the lookup obtains
  a credential and the transport delivers a response.
\<close>

definition track_reply :: "env \<Rightarrow> string \<Rightarrow> state \<Rightarrow> response option" where
  "track_reply env ident s =
     (case auth_headers env s of
        (Inl e, s1) \<Rightarrow> None
      | (Inr token, s1) \<Rightarrow>
          network env (tick s1) (HttpGet (BASE_API_URL @ ''/tracks/'' @ ident) token))"

definition artist_reply :: "env \<Rightarrow> string \<Rightarrow> state \<Rightarrow> response option" where
  "artist_reply env ident s =
     (case auth_headers env s of
        (Inl e, s1) \<Rightarrow> None
      | (Inr token, s1) \<Rightarrow>
          network env (tick s1) (HttpGet (BASE_API_URL @ ''/artists/'' @ ident) token))"

text \<open>
  The outcomes of a single fetch that keep its identifier out of a batch result: an
  exception, an empty record, or a record whose \<^verbatim>\<open>id\<close> or \<^verbatim>\<open>name\<close> is missing
  or empty.
\<close>

definition failing :: "error + json \<Rightarrow> bool" where
  "failing r \<longleftrightarrow>
     (case r of
        Inl e \<Rightarrow> True
      | Inr info \<Rightarrow>
          \<not> truthy info
          \<or> (case dict_get info ''id'' JNull of Inl e \<Rightarrow> True | Inr a \<Rightarrow> \<not> truthy a)
          \<or> (case dict_get info ''name'' JNull of Inl e \<Rightarrow> True | Inr b \<Rightarrow> \<not> truthy b))"

text \<open>The entry a fetch contributes to a batch result, if any.\<close>

definition fetched_entry :: "error + json \<Rightarrow> json option" where
  "fetched_entry r =
     (case r of
        Inl e \<Rightarrow> None
      | Inr info \<Rightarrow>
          (case (dict_get info ''id'' JNull, dict_get info ''name'' JNull) of
             (Inr a, Inr b) \<Rightarrow>
               if truthy info \<and> truthy a \<and> truthy b
               then Some (JObj [(''id'', a), (''name'', b)]) else None
           | _ \<Rightarrow> None))"

text \<open>The two batch loops differ in the fetch only; this is their common shape, over
  which their properties are proved once.\<close>

fun batch_loop ::
  "(string \<Rightarrow> state \<Rightarrow> (error + json) \<times> state) \<Rightarrow> string list \<Rightarrow> (string \<times> json) list
   \<Rightarrow> state \<Rightarrow> (error + (string \<times> json) list) \<times> state" where
  "batch_loop fetch [] valid s = (Inr valid, s)"
| "batch_loop fetch (ident # rest) valid s =
     (case fetch ident s of
        (r, s') \<Rightarrow>
          (case and_then r (\<lambda>info. add_if_valid ident info valid) of
             Inr valid' \<Rightarrow> batch_loop fetch rest valid' s'
           | Inl e \<Rightarrow>
               if is_Exception e then batch_loop fetch rest valid s'
               else (Inl e, s')))"

text \<open>
  The states the module can be in: it starts with an empty cache, and only its own
  functions write the globals. The configuration constants are read once, when the module
  is loaded, so a run has one \<open>env\<close>.
\<close>

inductive_set reachable :: "env \<Rightarrow> state set" for env :: env where
  start: "initial_state \<in> reachable env"
| token: "s \<in> reachable env \<Longrightarrow> snd (get_access_token env s) \<in> reachable env"
| track: "s \<in> reachable env \<Longrightarrow> snd (get_track_info env ident s) \<in> reachable env"
| artist: "s \<in> reachable env \<Longrightarrow> snd (get_artist_info env ident s) \<in> reachable env"
| tracks: "s \<in> reachable env \<Longrightarrow> snd (validate_tracks_batch env ids s) \<in> reachable env"
| artists: "s \<in> reachable env \<Longrightarrow> snd (validate_artists_batch env ids s) \<in> reachable env"


section \<open>Example worlds\<close>

text \<open>
  A catalog that knows one track and one artist, answers 500 for the identifier
  \<^verbatim>\<open>server-trouble\<close> and 404 for every other one; the token endpoint issues the same
  one-hour token each time, and the clock stands still.
\<close>

definition token_response :: "string \<Rightarrow> rat \<Rightarrow> response" where
  "token_response tok lifetime =
     \<lparr>status_code = 200, resp_text = [],
      json_body = Some (JObj [(''access_token'', JStr tok), (''token_type'', JStr ''Bearer''),
                              (''expires_in'', JNum lifetime)])\<rparr>"

definition status_response :: "int \<Rightarrow> response" where
  "status_response code = \<lparr>status_code = code, resp_text = [], json_body = None\<rparr>"

definition document_response :: "int \<Rightarrow> string \<Rightarrow> string \<Rightarrow> response" where
  "document_response code ident name =
     \<lparr>status_code = code, resp_text = [],
      json_body = Some (JObj [(''id'', JStr ident), (''name'', JStr name)])\<rparr>"

fun demo_network :: "nat \<Rightarrow> request \<Rightarrow> response option" where
  "demo_network k (HttpPost url basic) = Some (token_response ''BQDemo'' 3600)"
| "demo_network k (HttpGet url token) =
     (if url = ''https://api.spotify.com/v1/tracks/4uLU6hMCjMI75M1A2tKUQC''
      then Some (document_response 200 ''4uLU6hMCjMI75M1A2tKUQC'' ''Never Gonna Give You Up'')
      else if url = ''https://api.spotify.com/v1/artists/0gxyHStUsqpMadRV0Di1Qt''
      then Some (document_response 200 ''0gxyHStUsqpMadRV0Di1Qt'' ''Rick Astley'')
      else if url = ''https://api.spotify.com/v1/tracks/server-trouble''
              \<or> url = ''https://api.spotify.com/v1/artists/server-trouble''
      then Some (status_response 500)
      else Some (status_response 404))"

definition still_clock :: "nat \<Rightarrow> rat" where
  "still_clock k = 1000"

definition demo_world :: env where
  "demo_world =
     \<lparr>SPOTIFY_CLIENT_ID = Some ''client'', SPOTIFY_CLIENT_SECRET = Some ''secret'',
      time_time = still_clock, network = demo_network\<rparr>"

text \<open>The same world with no application identifier configured.\<close>

definition unconfigured_world :: env where
  "unconfigured_world =
     \<lparr>SPOTIFY_CLIENT_ID = None, SPOTIFY_CLIENT_SECRET = Some ''secret'',
      time_time = still_clock, network = demo_network\<rparr>"

text \<open>A catalog that answers every lookup with status 300 and a document.\<close>

fun choices_network :: "nat \<Rightarrow> request \<Rightarrow> response option" where
  "choices_network k (HttpPost url basic) = Some (token_response ''BQDemo'' 3600)"
| "choices_network k (HttpGet url token) = Some (document_response 300 ''abc'' ''Song'')"

definition choices_world :: env where
  "choices_world =
     \<lparr>SPOTIFY_CLIENT_ID = Some ''client'', SPOTIFY_CLIENT_SECRET = Some ''secret'',
      time_time = still_clock, network = choices_network\<rparr>"












section \<open>The batch loops\<close>

lemma is_Exception_all: "is_Exception e"
  by (cases e) simp_all

lemma tracks_loop_generic:
  "validate_tracks_loop env ids valid s = batch_loop (get_track_info env) ids valid s"
  by (induction ids arbitrary: valid s) (simp_all split: prod.splits sum.splits)

lemma artists_loop_generic:
  "validate_artists_loop env ids valid s = batch_loop (get_artist_info env) ids valid s"
  by (induction ids arbitrary: valid s) (simp_all split: prod.splits sum.splits)

lemma fetched_entry_failing: "fetched_entry r = None \<longleftrightarrow> failing r"
  by (auto simp: fetched_entry_def failing_def split: sum.splits)

lemma fetched_entry_Some:
  "fetched_entry r = Some v \<longleftrightarrow>
     (\<exists>info a b. r = Inr info \<and> dict_get info ''id'' JNull = Inr a \<and>
        dict_get info ''name'' JNull = Inr b \<and> truthy a \<and> truthy b \<and>
        v = JObj [(''id'', a), (''name'', b)])"
proof -
  have "truthy info" if "dict_get info ''id'' JNull = Inr a" "truthy a" for info a
    using that by (cases info) (auto split: option.splits)
  then show ?thesis
    by (auto simp: fetched_entry_def split: sum.splits)
qed

text \<open>What one turn of either loop leaves in the dictionary, whether the \<^verbatim>\<open>try\<close>
  block completes or its handler runs.\<close>

lemma try_body_entry:
  "(case and_then r (\<lambda>info. add_if_valid k info valid) of Inr valid' \<Rightarrow> valid' | Inl e \<Rightarrow> valid) =
     (case fetched_entry r of Some v \<Rightarrow> AList.update k v valid | None \<Rightarrow> valid)"
proof (cases r)
  case (Inl e)
  then show ?thesis by (simp add: and_then_def fetched_entry_def)
next
  case (Inr info)
  then show ?thesis
    by (cases info)
       (auto simp: and_then_def fetched_entry_def add_if_valid_def split: option.splits)
qed

lemma batch_loop_returns: "\<exists>d s'. batch_loop f ids valid s = (Inr d, s')"
  by (induction ids arbitrary: valid s)
     (auto simp: is_Exception_all split: prod.splits sum.splits)

lemma batch_loop_append:
  "batch_loop f (xs @ ys) valid s =
     (case batch_loop f xs valid s of
        (Inr valid', s') \<Rightarrow> batch_loop f ys valid' s'
      | (Inl e, s') \<Rightarrow> (Inl e, s'))"
  by (induction xs arbitrary: valid s)
     (auto simp: is_Exception_all split: prod.splits sum.splits)

lemma batch_loop_single:
  "batch_loop f [x] d s =
     (Inr (case fetched_entry (fst (f x s)) of Some v \<Rightarrow> AList.update x v d | None \<Rightarrow> d),
      snd (f x s))"
proof -
  obtain r s' where fx: "f x s = (r, s')"
    by (cases "f x s")
  have "batch_loop f [x] d s =
          (Inr (case and_then r (\<lambda>info. add_if_valid x info d) of
                  Inr valid' \<Rightarrow> valid' | Inl e \<Rightarrow> d), s')"
    using fx by (simp add: is_Exception_all split: sum.splits)
  then show ?thesis
    using fx by (simp add: try_body_entry)
qed

lemma batch_loop_snoc:
  assumes "batch_loop f xs valid s = (Inr d, s')"
  shows "batch_loop f (xs @ [x]) valid s =
     (Inr (case fetched_entry (fst (f x s')) of Some v \<Rightarrow> AList.update x v d | None \<Rightarrow> d),
      snd (f x s'))"
  using assms by (simp add: batch_loop_append batch_loop_single del: batch_loop.simps)

lemma index_snoc:
  "(\<exists>i<length (xs @ [x]). (xs @ [x]) ! i = k \<and> Q (take i (xs @ [x]))) \<longleftrightarrow>
   (\<exists>i<length xs. xs ! i = k \<and> Q (take i xs)) \<or> (x = k \<and> Q xs)"
proof -
  have "(\<exists>i<Suc (length xs). P i) \<longleftrightarrow> (\<exists>i<length xs. P i) \<or> P (length xs)" for P
    using less_Suc_eq by auto
  from this [of "\<lambda>i. (xs @ [x]) ! i = k \<and> Q (take i (xs @ [x]))"]
  show ?thesis
    by (auto simp: nth_append)
qed

text \<open>The keys of the result: the identifiers that were there, and those with a turn
  whose fetch did not fail, the state of each turn being the one the turns before it
  left.\<close>

lemma batch_loop_keys:
  "batch_loop f ids valid s = (Inr d, s') \<Longrightarrow>
   fst ` set d = fst ` set valid \<union>
     {k. \<exists>i<length ids. ids ! i = k \<and>
           \<not> failing (fst (f k (snd (batch_loop f (take i ids) valid s))))}"
proof (induction ids arbitrary: d s' rule: rev_induct)
  case Nil
  then show ?case by simp
next
  case (snoc x xs)
  obtain d0 s0 where run: "batch_loop f xs valid s = (Inr d0, s0)"
    using batch_loop_returns by blast
  have keys0: "fst ` set d0 = fst ` set valid \<union>
     {k. \<exists>i<length xs. xs ! i = k \<and>
           \<not> failing (fst (f k (snd (batch_loop f (take i xs) valid s))))}"
    using snoc.IH [OF run] .
  have d: "d = (case fetched_entry (fst (f x s0)) of Some v \<Rightarrow> AList.update x v d0 | None \<Rightarrow> d0)"
    using snoc.prems batch_loop_snoc [OF run, of x] by simp
  have keys: "fst ` set d = fst ` set d0 \<union> {k. x = k \<and> \<not> failing (fst (f k s0))}"
  proof (cases "fetched_entry (fst (f x s0))")
    case None
    then have "failing (fst (f x s0))" by (simp add: fetched_entry_failing)
    with None d show ?thesis by auto
  next
    case (Some v)
    then have "\<not> failing (fst (f x s0))"
      using fetched_entry_failing [of "fst (f x s0)"] by simp
    with Some d show ?thesis by (auto simp: dom_update)
  qed
  have "{k. \<exists>i<length (xs @ [x]). (xs @ [x]) ! i = k \<and>
           \<not> failing (fst (f k (snd (batch_loop f (take i (xs @ [x])) valid s))))} =
        {k. \<exists>i<length xs. xs ! i = k \<and>
           \<not> failing (fst (f k (snd (batch_loop f (take i xs) valid s))))} \<union>
        {k. x = k \<and> \<not> failing (fst (f k s0))}"
    using index_snoc [where xs = xs and x = x
        and Q = "\<lambda>pre. \<not> failing (fst (f k (snd (batch_loop f pre valid s))))" for k] run
    by (auto simp del: take_append)
  with keys keys0 show ?case
    by (simp only: Un_assoc)
qed

text \<open>The values of the result: each was there before or is the entry of one of its
  identifier's turns.\<close>

lemma batch_loop_values:
  "batch_loop f ids valid s = (Inr d, s') \<Longrightarrow> map_of d k = Some v \<Longrightarrow>
   map_of valid k = Some v \<or>
   (\<exists>i<length ids. ids ! i = k \<and>
      fetched_entry (fst (f k (snd (batch_loop f (take i ids) valid s)))) = Some v)"
proof (induction ids arbitrary: d s' v rule: rev_induct)
  case Nil
  then show ?case by simp
next
  case (snoc x xs)
  obtain d0 s0 where run: "batch_loop f xs valid s = (Inr d0, s0)"
    using batch_loop_returns by blast
  have d: "d = (case fetched_entry (fst (f x s0)) of Some v \<Rightarrow> AList.update x v d0 | None \<Rightarrow> d0)"
    using snoc.prems(1) batch_loop_snoc [OF run, of x] by simp
  note split = index_snoc [where xs = xs and x = x and k = k
        and Q = "\<lambda>pre. fetched_entry (fst (f k (snd (batch_loop f pre valid s)))) = Some v"]
  have last: "snd (batch_loop f xs valid s) = s0"
    using run by simp
  show ?case
  proof (cases "k = x \<and> fetched_entry (fst (f x s0)) \<noteq> None")
    case True
    then obtain w where w: "fetched_entry (fst (f x s0)) = Some w"
      by blast
    with d have "map_of d k = ((map_of d0)(x \<mapsto> w)) k"
      by (simp add: update_conv')
    with True snoc.prems(2) have "w = v"
      by simp
    with w True last
    have "x = k \<and> fetched_entry (fst (f k (snd (batch_loop f xs valid s)))) = Some v"
      by simp
    then show ?thesis
      unfolding split by (rule disjI2 [OF disjI2])
  next
    case False
    have "map_of d k = map_of d0 k"
    proof (cases "fetched_entry (fst (f x s0))")
      case None
      with d show ?thesis by simp
    next
      case (Some w)
      with False have "k \<noteq> x" by simp
      with Some d show ?thesis by (simp add: update_conv')
    qed
    with snoc.prems(2) have "map_of d0 k = Some v"
      by simp
    from snoc.IH [OF run this] show ?thesis
      unfolding split by blast
  qed
qed

section \<open>Properties of batch validation\<close>

text \<open>
  C1. Whatever the identifiers and whatever each fetch does (raise, return the empty
  record, return a record without an id or a name), \<^verbatim>\<open>validate_tracks_batch\<close> and
  \<^verbatim>\<open>validate_artists_batch\<close> return a mapping and raise nothing. An identifier is a key
  of the mapping exactly when one of its turns fetched a record that passes the test, the
  turn at position \<open>i\<close> starting in the state the turns before it left; so an identifier
  whose fetches all fail is absent, and a failure does not keep a later turn from running.
\<close>

theorem batch_absorbs_fetch_failures:
  "(\<exists>d. fst (validate_tracks_batch env ids s) = Inr d \<and>
      (\<forall>k. k \<in> fst ` set d \<longleftrightarrow>
         (\<exists>i<length ids. ids ! i = k \<and>
            \<not> failing (fst (get_track_info env k
                  (snd (validate_tracks_batch env (take i ids) s))))))) \<and>
   (\<exists>d. fst (validate_artists_batch env ids s) = Inr d \<and>
      (\<forall>k. k \<in> fst ` set d \<longleftrightarrow>
         (\<exists>i<length ids. ids ! i = k \<and>
            \<not> failing (fst (get_artist_info env k
                  (snd (validate_artists_batch env (take i ids) s)))))))"
proof -
  have generic: "\<exists>d. fst (batch_loop f ids [] s) = Inr d \<and>
      (\<forall>k. k \<in> fst ` set d \<longleftrightarrow>
         (\<exists>i<length ids. ids ! i = k \<and>
            \<not> failing (fst (f k (snd (batch_loop f (take i ids) [] s))))))" for f
  proof -
    obtain d s' where run: "batch_loop f ids [] s = (Inr d, s')"
      using batch_loop_returns by blast
    from batch_loop_keys [OF run] have
      "fst ` set d = {k. \<exists>i<length ids. ids ! i = k \<and>
           \<not> failing (fst (f k (snd (batch_loop f (take i ids) [] s))))}"
      by simp
    then have "\<forall>k. k \<in> fst ` set d \<longleftrightarrow>
         (\<exists>i<length ids. ids ! i = k \<and>
            \<not> failing (fst (f k (snd (batch_loop f (take i ids) [] s)))))"
      by blast
    with run show ?thesis by simp
  qed
  show ?thesis
    unfolding validate_tracks_batch_def validate_artists_batch_def
      tracks_loop_generic artists_loop_generic
    using generic [of "get_track_info env"] generic [of "get_artist_info env"]
    by (rule conjI)
qed

theorem batch_absorbs_fetch_failures_witness:
  "fst (validate_tracks_batch demo_world
          [''server-trouble'', ''bogus-id'', ''4uLU6hMCjMI75M1A2tKUQC''] initial_state) =
     Inr [(''4uLU6hMCjMI75M1A2tKUQC'',
           JObj [(''id'', JStr ''4uLU6hMCjMI75M1A2tKUQC''),
                 (''name'', JStr ''Never Gonna Give You Up'')])] \<and>
   (\<exists>e. fst (get_track_info demo_world ''server-trouble'' initial_state) = Inl e) \<and>
   (\<exists>d. fst (validate_artists_batch demo_world [''bogus-id''] initial_state) = Inr d \<and>
        ''bogus-id'' \<notin> fst ` set d)"
proof -
  have run: "fst (validate_tracks_batch demo_world
          [''server-trouble'', ''bogus-id'', ''4uLU6hMCjMI75M1A2tKUQC''] initial_state) =
     Inr [(''4uLU6hMCjMI75M1A2tKUQC'',
           JObj [(''id'', JStr ''4uLU6hMCjMI75M1A2tKUQC''),
                 (''name'', JStr ''Never Gonna Give You Up'')])]"
    by code_simp
  have raised: "fst (get_track_info demo_world ''server-trouble'' initial_state) = Inl (HTTPError 500)"
    by code_simp
  have empty: "failing (fst (get_artist_info demo_world ''bogus-id'' initial_state))"
    by code_simp
  have start: "snd (validate_artists_batch demo_world [] initial_state) = initial_state"
    by (simp add: validate_artists_batch_def)
  from batch_absorbs_fetch_failures [of demo_world "[''bogus-id'']" initial_state]
  obtain d where d: "fst (validate_artists_batch demo_world [''bogus-id''] initial_state) = Inr d"
    and keys: "\<forall>k. k \<in> fst ` set d \<longleftrightarrow>
         (\<exists>i<length [''bogus-id'']. [''bogus-id''] ! i = k \<and>
            \<not> failing (fst (get_artist_info demo_world k
                  (snd (validate_artists_batch demo_world (take i [''bogus-id'']) initial_state)))))"
    by blast
  from keys empty start have "''bogus-id'' \<notin> fst ` set d"
    by simp
  with run raised d show ?thesis
    by blast
qed

text \<open>
  C2. The keys of the mapping \<^verbatim>\<open>validate_tracks_batch\<close> returns are among the
  identifiers it was given, and each value is the dictionary of exactly an \<^verbatim>\<open>id\<close> and
  a \<^verbatim>\<open>name\<close>, both non-empty, that are the \<^verbatim>\<open>id\<close> and \<^verbatim>\<open>name\<close> of the record
  which \<^verbatim>\<open>get_track_info\<close> returned for that identifier at one of its turns.
\<close>

theorem batch_values_from_single_fetch:
  assumes "fst (validate_tracks_batch env ids s) = Inr d"
  shows "fst ` set d \<subseteq> set ids \<and>
    (\<forall>k v. map_of d k = Some v \<longrightarrow>
       (\<exists>i<length ids. ids ! i = k \<and>
          (\<exists>info a b.
             fst (get_track_info env k (snd (validate_tracks_batch env (take i ids) s))) = Inr info \<and>
             dict_get info ''id'' JNull = Inr a \<and> dict_get info ''name'' JNull = Inr b \<and>
             truthy a \<and> truthy b \<and>
             v = JObj [(''id'', a), (''name'', b)])))"
proof -
  from assms obtain s' where run: "batch_loop (get_track_info env) ids [] s = (Inr d, s')"
    unfolding validate_tracks_batch_def tracks_loop_generic
    by (cases "batch_loop (get_track_info env) ids [] s") simp
  have "fst ` set d \<subseteq> set ids"
    using batch_loop_keys [OF run] by auto
  moreover have "\<exists>i<length ids. ids ! i = k \<and>
          (\<exists>info a b.
             fst (get_track_info env k (snd (validate_tracks_batch env (take i ids) s))) = Inr info \<and>
             dict_get info ''id'' JNull = Inr a \<and> dict_get info ''name'' JNull = Inr b \<and>
             truthy a \<and> truthy b \<and>
             v = JObj [(''id'', a), (''name'', b)])"
    if "map_of d k = Some v" for k v
    using batch_loop_values [OF run that]
    unfolding validate_tracks_batch_def tracks_loop_generic fetched_entry_Some
    by simp
  ultimately show ?thesis
    by blast
qed

theorem batch_values_from_single_fetch_witness:
  "fst (validate_tracks_batch demo_world [''4uLU6hMCjMI75M1A2tKUQC'', ''bogus-id''] initial_state) =
     Inr [(''4uLU6hMCjMI75M1A2tKUQC'',
           JObj [(''id'', JStr ''4uLU6hMCjMI75M1A2tKUQC''),
                 (''name'', JStr ''Never Gonna Give You Up'')])] \<and>
   (\<exists>info. fst (get_track_info demo_world ''4uLU6hMCjMI75M1A2tKUQC'' initial_state) = Inr info \<and>
      dict_get info ''id'' JNull = Inr (JStr ''4uLU6hMCjMI75M1A2tKUQC'') \<and>
      dict_get info ''name'' JNull = Inr (JStr ''Never Gonna Give You Up''))"
proof -
  define k where "k = ''4uLU6hMCjMI75M1A2tKUQC''"
  define other where "other = ''bogus-id''"
  define a0 where "a0 = JStr ''4uLU6hMCjMI75M1A2tKUQC''"
  define b0 where "b0 = JStr ''Never Gonna Give You Up''"
  define key_id where "key_id = ''id''"
  define key_name where "key_name = ''name''"
  have differ: "other \<noteq> k"
    by (simp add: other_def k_def)
  have run: "fst (validate_tracks_batch demo_world [k, other] initial_state) =
      Inr [(k, JObj [(key_id, a0), (key_name, b0)])]"
    unfolding k_def other_def a0_def b0_def key_id_def key_name_def by code_simp
  have entry: "map_of [(k, JObj [(key_id, a0), (key_name, b0)])] k =
      Some (JObj [(key_id, a0), (key_name, b0)])"
    by simp
  from batch_values_from_single_fetch [OF run] entry
  have "\<exists>i<length [k, other]. [k, other] ! i = k \<and>
          (\<exists>info a b.
             fst (get_track_info demo_world k
                    (snd (validate_tracks_batch demo_world (take i [k, other]) initial_state))) =
               Inr info \<and>
             dict_get info ''id'' JNull = Inr a \<and> dict_get info ''name'' JNull = Inr b \<and>
             truthy a \<and> truthy b \<and>
             JObj [(key_id, a0), (key_name, b0)] = JObj [(''id'', a), (''name'', b)])"
    by blast
  then obtain i info where i: "i < length [k, other]" "[k, other] ! i = k"
    and info: "fst (get_track_info demo_world k
                 (snd (validate_tracks_batch demo_world (take i [k, other]) initial_state))) =
               Inr info"
    and fields: "dict_get info ''id'' JNull = Inr a0" "dict_get info ''name'' JNull = Inr b0"
    by auto
  from i differ have "i = 0"
    by (cases i) auto
  with info have "fst (get_track_info demo_world k initial_state) = Inr info"
    by (simp add: validate_tracks_batch_def)
  with fields have "\<exists>info. fst (get_track_info demo_world k initial_state) = Inr info \<and>
      dict_get info ''id'' JNull = Inr a0 \<and> dict_get info ''name'' JNull = Inr b0"
    by blast
  with run show ?thesis
    unfolding k_def other_def a0_def b0_def key_id_def key_name_def by blast
qed

section \<open>The paths through \<^verbatim>\<open>get_access_token\<close>\<close>


lemma token_unconfigured:
  "\<not> cache_hit env s \<Longrightarrow> get_basic_auth_header env = Inl e \<Longrightarrow>
   get_access_token env s = (Inl e, s\<lparr>tick := Suc (tick s)\<rparr>)"
  by (simp add: get_access_token_def cache_hit_def Let_def)






section \<open>Properties of the credential cache\<close>













section \<open>Missing configuration\<close>

lemma header_unconfigured:
  "\<not> configured (SPOTIFY_CLIENT_ID env) \<or> \<not> configured (SPOTIFY_CLIENT_SECRET env) \<Longrightarrow>
   get_basic_auth_header env = Inl (SpotifyAuthError NotConfigured)"
  by (simp add: get_basic_auth_header_def)

lemma token_without_credentials:
  assumes "get_basic_auth_header env = Inl e" and "ACCESS_TOKEN s = JNull"
  shows "get_access_token env s = (Inl e, s\<lparr>tick := Suc (tick s)\<rparr>)"
proof -
  from assms(2) have "\<not> cache_hit env s"
    by (simp add: cache_hit_def)
  from token_unconfigured [OF this assms(1)] show ?thesis .
qed

lemma track_without_credentials:
  assumes "get_basic_auth_header env = Inl e" and "ACCESS_TOKEN s = JNull"
  shows "get_track_info env ident s = (Inl e, s\<lparr>tick := Suc (tick s)\<rparr>)"
  using token_without_credentials [OF assms]
  by (simp add: get_track_info_def auth_headers_def)

lemma artist_without_credentials:
  assumes "get_basic_auth_header env = Inl e" and "ACCESS_TOKEN s = JNull"
  shows "get_artist_info env ident s = (Inl e, s\<lparr>tick := Suc (tick s)\<rparr>)"
  using token_without_credentials [OF assms]
  by (simp add: get_artist_info_def auth_headers_def)

text \<open>A property of states that every fetch keeps is kept by the loop.\<close>

lemma batch_loop_preserves:
  assumes step: "\<And>k s. P s \<Longrightarrow> P (snd (f k s))"
  shows "P s \<Longrightarrow> P (snd (batch_loop f ids valid s))"
proof (induction ids arbitrary: valid s)
  case Nil
  then show ?case by simp
next
  case (Cons x xs)
  from step [OF Cons.prems, of x] have "P (snd (f x s))" .
  then have "P (snd (batch_loop f xs v (snd (f x s))))" for v
    by (rule Cons.IH)
  then show ?case
    by (cases "f x s") (auto simp: is_Exception_all split: sum.splits)
qed

text \<open>Without credentials the module never stores a token and never sends anything.\<close>

lemma reachable_without_credentials:
  assumes "s \<in> reachable env" and "get_basic_auth_header env = Inl e"
  shows "ACCESS_TOKEN s = JNull \<and> sent s = []"
  using assms(1)
proof (induction rule: reachable.induct)
  case start
  show ?case by (simp add: initial_state_def)
next
  case (token s)
  then show ?case
    using token_without_credentials [OF assms(2), of s] by simp
next
  case (track s ident)
  then show ?case
    using track_without_credentials [OF assms(2), of s ident] by simp
next
  case (artist s ident)
  then show ?case
    using artist_without_credentials [OF assms(2), of s ident] by simp
next
  case (tracks s ids)
  have "ACCESS_TOKEN (snd (get_track_info env k t)) = JNull \<and> sent (snd (get_track_info env k t)) = []"
    if "ACCESS_TOKEN t = JNull \<and> sent t = []" for k t
    using that track_without_credentials [OF assms(2), of t k] by simp
  from batch_loop_preserves [of "\<lambda>t. ACCESS_TOKEN t = JNull \<and> sent t = []" "get_track_info env",
      OF this tracks.IH]
  show ?case
    by (simp add: validate_tracks_batch_def tracks_loop_generic)
next
  case (artists s ids)
  have "ACCESS_TOKEN (snd (get_artist_info env k t)) = JNull \<and> sent (snd (get_artist_info env k t)) = []"
    if "ACCESS_TOKEN t = JNull \<and> sent t = []" for k t
    using that artist_without_credentials [OF assms(2), of t k] by simp
  from batch_loop_preserves [of "\<lambda>t. ACCESS_TOKEN t = JNull \<and> sent t = []" "get_artist_info env",
      OF this artists.IH]
  show ?case
    by (simp add: validate_artists_batch_def artists_loop_generic)
qed

text \<open>
  C9. When the application identifier or the application secret is missing (\<^verbatim>\<open>None\<close>
  or empty), \<^verbatim>\<open>get_access_token\<close> raises \<^verbatim>\<open>SpotifyAuthError\<close> with its
  not-configured message, in whatever state the module can have reached, and no request
  has been sent when it does.
\<close>

theorem missing_configuration_raises_before_network:
  assumes "s \<in> reachable env"
    and "\<not> configured (SPOTIFY_CLIENT_ID env) \<or> \<not> configured (SPOTIFY_CLIENT_SECRET env)"
  shows "fst (get_access_token env s) = Inl (SpotifyAuthError NotConfigured) \<and>
         sent (snd (get_access_token env s)) = sent s \<and>
         sent (snd (get_access_token env s)) = []"
proof -
  note header = header_unconfigured [OF assms(2)]
  from reachable_without_credentials [OF assms(1) header]
  have "ACCESS_TOKEN s = JNull" and "sent s = []"
    by simp_all
  with token_without_credentials [OF header, of s] show ?thesis
    by simp
qed

theorem missing_configuration_raises_before_network_witness:
  "snd (get_track_info unconfigured_world ''4uLU6hMCjMI75M1A2tKUQC'' initial_state)
     \<in> reachable unconfigured_world \<and>
   \<not> configured (SPOTIFY_CLIENT_ID unconfigured_world) \<and>
   fst (get_access_token unconfigured_world
         (snd (get_track_info unconfigured_world ''4uLU6hMCjMI75M1A2tKUQC'' initial_state))) =
     Inl (SpotifyAuthError NotConfigured) \<and>
   sent (snd (get_access_token unconfigured_world
         (snd (get_track_info unconfigured_world ''4uLU6hMCjMI75M1A2tKUQC'' initial_state)))) = []"
proof -
  have there: "snd (get_track_info unconfigured_world ''4uLU6hMCjMI75M1A2tKUQC'' initial_state)
     \<in> reachable unconfigured_world"
    by (rule reachable.track [OF reachable.start])
  have missing: "\<not> configured (SPOTIFY_CLIENT_ID unconfigured_world)"
    by (simp add: unconfigured_world_def configured_def)
  from missing_configuration_raises_before_network [OF there disjI1 [OF missing]] there missing
  show ?thesis by blast
qed

section \<open>Single lookups and what the batch makes of them\<close>

lemma track_lookup_without_token:
  "fst (get_access_token env s) = Inl e \<Longrightarrow> fst (get_track_info env ident s) = Inl e"
  by (cases "get_access_token env s") (simp add: get_track_info_def auth_headers_def)

lemma artist_lookup_without_token:
  "fst (get_access_token env s) = Inl e \<Longrightarrow> fst (get_artist_info env ident s) = Inl e"
  by (cases "get_access_token env s") (simp add: get_artist_info_def auth_headers_def)

lemma track_lookup_reply:
  "track_reply env ident s = Some resp \<Longrightarrow>
   fst (get_track_info env ident s) =
     (if status_code resp = 404 then Inr (JObj [])
      else case raise_for_status resp of
             Inl e \<Rightarrow> Inl e
           | Inr u \<Rightarrow> (case json_body resp of
                         None \<Rightarrow> Inl JSONDecodeError
                       | Some data \<Rightarrow> track_record data))"
  by (cases "auth_headers env s")
     (auto simp: track_reply_def get_track_info_def Let_def split: sum.splits option.splits)

lemma artist_lookup_reply:
  "artist_reply env ident s = Some resp \<Longrightarrow>
   fst (get_artist_info env ident s) =
     (if status_code resp = 404 then Inr (JObj [])
      else case raise_for_status resp of
             Inl e \<Rightarrow> Inl e
           | Inr u \<Rightarrow> (case json_body resp of
                         None \<Rightarrow> Inl JSONDecodeError
                       | Some data \<Rightarrow> artist_record data))"
  by (cases "auth_headers env s")
     (auto simp: artist_reply_def get_artist_info_def Let_def split: sum.splits option.splits)

lemma track_record_nonempty: "track_record data \<noteq> Inr (JObj [])"
  by (simp add: track_record_def and_then_def split: sum.splits)

lemma artist_record_nonempty: "artist_record data \<noteq> Inr (JObj [])"
  by (simp add: artist_record_def and_then_def split: sum.splits)

lemma raise_for_status_error:
  "400 \<le> status_code resp \<Longrightarrow> status_code resp < 600 \<Longrightarrow>
   raise_for_status resp = Inl (HTTPError (status_code resp))"
  by (simp add: raise_for_status_def)

lemma batch_loop_omits:
  assumes run: "batch_loop f ids [] s = (Inr d, s')"
    and fails: "\<forall>i<length ids. ids ! i = k \<longrightarrow>
       failing (fst (f k (snd (batch_loop f (take i ids) [] s))))"
  shows "k \<notin> fst ` set d"
  using batch_loop_keys [OF run] fails by auto

lemma batch_loop_all_fail:
  assumes fails: "\<forall>i<length ids. failing (fst (f (ids ! i) (snd (batch_loop f (take i ids) [] s))))"
  shows "fst (batch_loop f ids [] s) = Inr []"
proof -
  obtain d s' where run: "batch_loop f ids [] s = (Inr d, s')"
    using batch_loop_returns by blast
  from batch_loop_keys [OF run] fails have "fst ` set d = {}"
    by auto
  then have "d = []"
    by simp
  with run show ?thesis
    by simp
qed

section \<open>Properties of the error paths\<close>

text \<open>
  C3, as the code has it. Credential acquisition happens inside each fetch, inside the
  \<^verbatim>\<open>try\<close> block, so its failure is absorbed like any other: when
  \<^verbatim>\<open>get_access_token\<close> raises at every turn (as it does when the identifier or the
  secret is missing), \<^verbatim>\<open>validate_tracks_batch\<close> and \<^verbatim>\<open>validate_artists_batch\<close>
  raise nothing and return the empty mapping.
\<close>

theorem batch_absorbs_credential_failure:
  "((\<forall>i<length ids. \<exists>e.
        fst (get_access_token env (snd (validate_tracks_batch env (take i ids) s))) = Inl e)
      \<longrightarrow> fst (validate_tracks_batch env ids s) = Inr []) \<and>
   ((\<forall>i<length ids. \<exists>e.
        fst (get_access_token env (snd (validate_artists_batch env (take i ids) s))) = Inl e)
      \<longrightarrow> fst (validate_artists_batch env ids s) = Inr [])"
proof (intro conjI impI)
  assume a: "\<forall>i<length ids. \<exists>e.
        fst (get_access_token env (snd (validate_tracks_batch env (take i ids) s))) = Inl e"
  have "failing (fst (get_track_info env (ids ! i)
          (snd (batch_loop (get_track_info env) (take i ids) [] s))))" if "i < length ids" for i
  proof -
    from a that obtain e where
      "fst (get_access_token env (snd (batch_loop (get_track_info env) (take i ids) [] s))) = Inl e"
      unfolding validate_tracks_batch_def tracks_loop_generic by blast
    from track_lookup_without_token [OF this] show ?thesis
      by (simp add: failing_def)
  qed
  then show "fst (validate_tracks_batch env ids s) = Inr []"
    unfolding validate_tracks_batch_def tracks_loop_generic
    using batch_loop_all_fail [of ids "get_track_info env" s] by blast
next
  assume a: "\<forall>i<length ids. \<exists>e.
        fst (get_access_token env (snd (validate_artists_batch env (take i ids) s))) = Inl e"
  have "failing (fst (get_artist_info env (ids ! i)
          (snd (batch_loop (get_artist_info env) (take i ids) [] s))))" if "i < length ids" for i
  proof -
    from a that obtain e where
      "fst (get_access_token env (snd (batch_loop (get_artist_info env) (take i ids) [] s))) = Inl e"
      unfolding validate_artists_batch_def artists_loop_generic by blast
    from artist_lookup_without_token [OF this] show ?thesis
      by (simp add: failing_def)
  qed
  then show "fst (validate_artists_batch env ids s) = Inr []"
    unfolding validate_artists_batch_def artists_loop_generic
    using batch_loop_all_fail [of ids "get_artist_info env" s] by blast
qed

theorem batch_absorbs_credential_failure_witness:
  "fst (get_access_token unconfigured_world initial_state) = Inl (SpotifyAuthError NotConfigured) \<and>
   fst (validate_tracks_batch unconfigured_world
          [''4uLU6hMCjMI75M1A2tKUQC'', ''bogus-id''] initial_state) = Inr [] \<and>
   fst (validate_artists_batch unconfigured_world
          [''0gxyHStUsqpMadRV0Di1Qt''] initial_state) = Inr []"
proof -
  have header: "get_basic_auth_header unconfigured_world = Inl (SpotifyAuthError NotConfigured)"
    by code_simp
  have raises: "\<exists>e. fst (get_access_token unconfigured_world t) = Inl e"
    if "t \<in> reachable unconfigured_world" for t
    using reachable_without_credentials [OF that header]
      token_without_credentials [OF header, of t] by simp
  have t: "\<forall>i<length [''4uLU6hMCjMI75M1A2tKUQC'', ''bogus-id'']. \<exists>e.
        fst (get_access_token unconfigured_world
              (snd (validate_tracks_batch unconfigured_world
                     (take i [''4uLU6hMCjMI75M1A2tKUQC'', ''bogus-id'']) initial_state))) = Inl e"
    using raises [OF reachable.tracks [OF reachable.start]] by blast
  have a: "\<forall>i<length [''0gxyHStUsqpMadRV0Di1Qt'']. \<exists>e.
        fst (get_access_token unconfigured_world
              (snd (validate_artists_batch unconfigured_world
                     (take i [''0gxyHStUsqpMadRV0Di1Qt'']) initial_state))) = Inl e"
    using raises [OF reachable.artists [OF reachable.start]] by blast
  have first: "fst (get_access_token unconfigured_world initial_state) =
      Inl (SpotifyAuthError NotConfigured)"
    by code_simp
  from batch_absorbs_credential_failure
         [of "[''4uLU6hMCjMI75M1A2tKUQC'', ''bogus-id'']" unconfigured_world initial_state] t
  have "fst (validate_tracks_batch unconfigured_world
          [''4uLU6hMCjMI75M1A2tKUQC'', ''bogus-id''] initial_state) = Inr []"
    by blast
  moreover
  from batch_absorbs_credential_failure
         [of "[''0gxyHStUsqpMadRV0Di1Qt'']" unconfigured_world initial_state] a
  have "fst (validate_artists_batch unconfigured_world
          [''0gxyHStUsqpMadRV0Di1Qt''] initial_state) = Inr []"
    by blast
  ultimately show ?thesis
    using first by blast
qed

text \<open>
  The claim C3 as it is written fails: with no application identifier configured,
  credential acquisition raises, and both batch operations on a non-empty list return the
  empty mapping instead of raising.
\<close>

theorem batch_absorbs_credential_failure_counterexample:
  "fst (get_access_token unconfigured_world initial_state) = Inl (SpotifyAuthError NotConfigured) \<and>
   fst (validate_tracks_batch unconfigured_world [''4uLU6hMCjMI75M1A2tKUQC''] initial_state) = Inr [] \<and>
   fst (validate_artists_batch unconfigured_world [''0gxyHStUsqpMadRV0Di1Qt''] initial_state) = Inr []"
  by code_simp

text \<open>
  C4. When the catalog answers a lookup with status 404, \<^verbatim>\<open>get_track_info\<close> and
  \<^verbatim>\<open>get_artist_info\<close> return the empty record and raise nothing. The caller can tell
  this outcome from every other: whenever the catalog answers, the result is the empty
  record only for a 404, and every other status of the client and server error classes
  makes the lookup raise.
\<close>

theorem not_found_is_empty_record:
  "(track_reply env ident s = Some resp \<longrightarrow>
      (status_code resp = 404 \<longrightarrow> fst (get_track_info env ident s) = Inr (JObj [])) \<and>
      (status_code resp \<noteq> 404 \<longrightarrow> fst (get_track_info env ident s) \<noteq> Inr (JObj [])) \<and>
      (400 \<le> status_code resp \<and> status_code resp < 600 \<and> status_code resp \<noteq> 404 \<longrightarrow>
         (\<exists>e. fst (get_track_info env ident s) = Inl e))) \<and>
   (artist_reply env ident s = Some resp' \<longrightarrow>
      (status_code resp' = 404 \<longrightarrow> fst (get_artist_info env ident s) = Inr (JObj [])) \<and>
      (status_code resp' \<noteq> 404 \<longrightarrow> fst (get_artist_info env ident s) \<noteq> Inr (JObj [])) \<and>
      (400 \<le> status_code resp' \<and> status_code resp' < 600 \<and> status_code resp' \<noteq> 404 \<longrightarrow>
         (\<exists>e. fst (get_artist_info env ident s) = Inl e)))"
proof (intro conjI impI)
  assume r: "track_reply env ident s = Some resp"
  show "fst (get_track_info env ident s) = Inr (JObj [])" if "status_code resp = 404"
    using track_lookup_reply [OF r] that by simp
  show "fst (get_track_info env ident s) \<noteq> Inr (JObj [])" if "status_code resp \<noteq> 404"
    using track_lookup_reply [OF r] that track_record_nonempty
    by (auto split: sum.splits option.splits)
  show "\<exists>e. fst (get_track_info env ident s) = Inl e"
    if "400 \<le> status_code resp \<and> status_code resp < 600 \<and> status_code resp \<noteq> 404"
    using track_lookup_reply [OF r] that by (simp add: raise_for_status_error)
next
  assume r: "artist_reply env ident s = Some resp'"
  show "fst (get_artist_info env ident s) = Inr (JObj [])" if "status_code resp' = 404"
    using artist_lookup_reply [OF r] that by simp
  show "fst (get_artist_info env ident s) \<noteq> Inr (JObj [])" if "status_code resp' \<noteq> 404"
    using artist_lookup_reply [OF r] that artist_record_nonempty
    by (auto split: sum.splits option.splits)
  show "\<exists>e. fst (get_artist_info env ident s) = Inl e"
    if "400 \<le> status_code resp' \<and> status_code resp' < 600 \<and> status_code resp' \<noteq> 404"
    using artist_lookup_reply [OF r] that by (simp add: raise_for_status_error)
qed

theorem not_found_is_empty_record_witness:
  "track_reply demo_world ''bogus-id'' initial_state = Some (status_response 404) \<and>
   artist_reply demo_world ''bogus-id'' initial_state = Some (status_response 404) \<and>
   status_code (status_response 404) = 404 \<and>
   fst (get_track_info demo_world ''bogus-id'' initial_state) = Inr (JObj []) \<and>
   fst (get_artist_info demo_world ''bogus-id'' initial_state) = Inr (JObj [])"
proof -
  have t: "track_reply demo_world ''bogus-id'' initial_state = Some (status_response 404)"
    by code_simp
  have a: "artist_reply demo_world ''bogus-id'' initial_state = Some (status_response 404)"
    by code_simp
  have c: "status_code (status_response 404) = 404"
    by (simp add: status_response_def)
  from not_found_is_empty_record
         [of demo_world "''bogus-id''" initial_state "status_response 404" "status_response 404"]
       t a c
  show ?thesis by blast
qed

text \<open>
  C5, as the code has it. When the catalog answers a lookup with a status from 400 to
  599 other than 404 (the statuses for which \<^verbatim>\<open>raise_for_status\<close> raises),
  \<^verbatim>\<open>get_track_info\<close> and \<^verbatim>\<open>get_artist_info\<close> raise \<^verbatim>\<open>HTTPError\<close>; and an
  identifier all of whose turns in a batch are answered so is not a key of the mapping
  the batch returns, which raises nothing.
\<close>

theorem error_status_raises_and_is_omitted:
  "(track_reply env ident s = Some resp \<and>
      400 \<le> status_code resp \<and> status_code resp < 600 \<and> status_code resp \<noteq> 404 \<longrightarrow>
        fst (get_track_info env ident s) = Inl (HTTPError (status_code resp))) \<and>
   (artist_reply env ident s = Some resp' \<and>
      400 \<le> status_code resp' \<and> status_code resp' < 600 \<and> status_code resp' \<noteq> 404 \<longrightarrow>
        fst (get_artist_info env ident s) = Inl (HTTPError (status_code resp'))) \<and>
   ((\<forall>i<length ids. ids ! i = k \<longrightarrow>
       (\<exists>r. track_reply env k (snd (validate_tracks_batch env (take i ids) s)) = Some r \<and>
            400 \<le> status_code r \<and> status_code r < 600 \<and> status_code r \<noteq> 404)) \<longrightarrow>
      (\<exists>d. fst (validate_tracks_batch env ids s) = Inr d \<and> k \<notin> fst ` set d)) \<and>
   ((\<forall>i<length ids. ids ! i = k \<longrightarrow>
       (\<exists>r. artist_reply env k (snd (validate_artists_batch env (take i ids) s)) = Some r \<and>
            400 \<le> status_code r \<and> status_code r < 600 \<and> status_code r \<noteq> 404)) \<longrightarrow>
      (\<exists>d. fst (validate_artists_batch env ids s) = Inr d \<and> k \<notin> fst ` set d))"
proof -
  have track: "fst (get_track_info env j t) = Inl (HTTPError (status_code r))"
    if "track_reply env j t = Some r" "400 \<le> status_code r" "status_code r < 600"
       "status_code r \<noteq> 404" for j t r
    using track_lookup_reply [OF that(1)] that(2-4) by (simp add: raise_for_status_error)
  have artist: "fst (get_artist_info env j t) = Inl (HTTPError (status_code r))"
    if "artist_reply env j t = Some r" "400 \<le> status_code r" "status_code r < 600"
       "status_code r \<noteq> 404" for j t r
    using artist_lookup_reply [OF that(1)] that(2-4) by (simp add: raise_for_status_error)
  have tracks: "\<exists>d. fst (validate_tracks_batch env ids s) = Inr d \<and> k \<notin> fst ` set d"
    if a: "\<forall>i<length ids. ids ! i = k \<longrightarrow>
       (\<exists>r. track_reply env k (snd (validate_tracks_batch env (take i ids) s)) = Some r \<and>
            400 \<le> status_code r \<and> status_code r < 600 \<and> status_code r \<noteq> 404)"
  proof -
    obtain d s' where run: "batch_loop (get_track_info env) ids [] s = (Inr d, s')"
      using batch_loop_returns by blast
    have "\<forall>i<length ids. ids ! i = k \<longrightarrow>
       failing (fst (get_track_info env k (snd (batch_loop (get_track_info env) (take i ids) [] s))))"
      using a track unfolding validate_tracks_batch_def tracks_loop_generic
      by (fastforce simp: failing_def)
    from batch_loop_omits [OF run this] run show ?thesis
      by (simp add: validate_tracks_batch_def tracks_loop_generic)
  qed
  have artists: "\<exists>d. fst (validate_artists_batch env ids s) = Inr d \<and> k \<notin> fst ` set d"
    if a: "\<forall>i<length ids. ids ! i = k \<longrightarrow>
       (\<exists>r. artist_reply env k (snd (validate_artists_batch env (take i ids) s)) = Some r \<and>
            400 \<le> status_code r \<and> status_code r < 600 \<and> status_code r \<noteq> 404)"
  proof -
    obtain d s' where run: "batch_loop (get_artist_info env) ids [] s = (Inr d, s')"
      using batch_loop_returns by blast
    have "\<forall>i<length ids. ids ! i = k \<longrightarrow>
       failing (fst (get_artist_info env k (snd (batch_loop (get_artist_info env) (take i ids) [] s))))"
      using a artist unfolding validate_artists_batch_def artists_loop_generic
      by (fastforce simp: failing_def)
    from batch_loop_omits [OF run this] run show ?thesis
      by (simp add: validate_artists_batch_def artists_loop_generic)
  qed
  from track [of ident s resp] artist [of ident s resp'] tracks artists show ?thesis
    by blast
qed

theorem error_status_raises_and_is_omitted_witness:
  "track_reply demo_world ''server-trouble'' initial_state = Some (status_response 500) \<and>
   artist_reply demo_world ''server-trouble'' initial_state = Some (status_response 500) \<and>
   status_code (status_response 500) = 500 \<and>
   fst (get_track_info demo_world ''server-trouble'' initial_state) = Inl (HTTPError 500) \<and>
   fst (get_artist_info demo_world ''server-trouble'' initial_state) = Inl (HTTPError 500) \<and>
   (\<exists>d. fst (validate_tracks_batch demo_world [''server-trouble''] initial_state) = Inr d \<and>
        ''server-trouble'' \<notin> fst ` set d) \<and>
   (\<exists>d. fst (validate_artists_batch demo_world [''server-trouble''] initial_state) = Inr d \<and>
        ''server-trouble'' \<notin> fst ` set d)"
proof -
  have t: "track_reply demo_world ''server-trouble'' initial_state = Some (status_response 500)"
    by code_simp
  have a: "artist_reply demo_world ''server-trouble'' initial_state = Some (status_response 500)"
    by code_simp
  have c: "status_code (status_response 500) = 500"
    by (simp add: status_response_def)
  have t0: "snd (validate_tracks_batch demo_world (take i [''server-trouble'']) initial_state) =
      initial_state" if "i < length [''server-trouble'']" for i
    using that by (simp add: validate_tracks_batch_def)
  have a0: "snd (validate_artists_batch demo_world (take i [''server-trouble'']) initial_state) =
      initial_state" if "i < length [''server-trouble'']" for i
    using that by (simp add: validate_artists_batch_def)
  have turns_t: "\<forall>i<length [''server-trouble'']. [''server-trouble''] ! i = ''server-trouble'' \<longrightarrow>
       (\<exists>r. track_reply demo_world ''server-trouble''
               (snd (validate_tracks_batch demo_world (take i [''server-trouble'']) initial_state)) =
             Some r \<and>
            400 \<le> status_code r \<and> status_code r < 600 \<and> status_code r \<noteq> 404)"
    using t c t0 by simp
  have turns_a: "\<forall>i<length [''server-trouble'']. [''server-trouble''] ! i = ''server-trouble'' \<longrightarrow>
       (\<exists>r. artist_reply demo_world ''server-trouble''
               (snd (validate_artists_batch demo_world (take i [''server-trouble'']) initial_state)) =
             Some r \<and>
            400 \<le> status_code r \<and> status_code r < 600 \<and> status_code r \<noteq> 404)"
    using a c a0 by simp
  note inst = error_status_raises_and_is_omitted
         [of demo_world "''server-trouble''" initial_state "status_response 500"
             "status_response 500" "[''server-trouble'']" "''server-trouble''"]
  from inst t c have "fst (get_track_info demo_world ''server-trouble'' initial_state) =
      Inl (HTTPError 500)"
    by simp
  moreover from inst a c have "fst (get_artist_info demo_world ''server-trouble'' initial_state) =
      Inl (HTTPError 500)"
    by simp
  moreover from inst turns_t
  have "\<exists>d. fst (validate_tracks_batch demo_world [''server-trouble''] initial_state) = Inr d \<and>
        ''server-trouble'' \<notin> fst ` set d"
    by blast
  moreover from inst turns_a
  have "\<exists>d. fst (validate_artists_batch demo_world [''server-trouble''] initial_state) = Inr d \<and>
        ''server-trouble'' \<notin> fst ` set d"
    by blast
  ultimately show ?thesis
    using t a c by blast
qed

text \<open>
  The claim C5 as it is written fails for a status outside 200 to 299 that is not an
  error status: a catalog that answers 300 with a document gets the document projected
  and returned, and the batch keeps the identifier.
\<close>

theorem error_status_counterexample:
  "track_reply choices_world ''abc'' initial_state = Some (document_response 300 ''abc'' ''Song'') \<and>
   status_code (document_response 300 ''abc'' ''Song'') = 300 \<and>
   fst (get_track_info choices_world ''abc'' initial_state) =
     Inr (JObj [(''id'', JStr ''abc''), (''name'', JStr ''Song''), (''duration_ms'', JNull),
                (''explicit'', JNull), (''preview_url'', JNull),
                (''album'', JObj [(''id'', JNull), (''name'', JNull)]),
                (''artists'', JList [])]) \<and>
   fst (validate_tracks_batch choices_world [''abc''] initial_state) =
     Inr [(''abc'', JObj [(''id'', JStr ''abc''), (''name'', JStr ''Song'')])]"
  by code_simp

end
